theory Spec2Isabelle
  imports Complex_Main "HOL-Library.Word"
begin

section \<open>JavaScript strings, buffers and values\<close>

text \<open>
  A JavaScript string is a sequence of UTF-16 code units; a Node \<open>Buffer\<close> is a sequence
  of bytes. String literals of the source are written with \<open>lit\<close>, which maps every
  character of an ASCII literal to its code unit.
\<close>

type_synonym byte = "8 word"
type_synonym jsstring = "16 word list"

definition lit :: "string \<Rightarrow> jsstring" where
  "lit s = map (\<lambda>c. of_char c) s"

text \<open>
  The values \<open>JSON.parse\<close> produces. A number holds the value of the double that was
  read; an object holds its own properties in order.
\<close>

datatype json =
    JNull
  | JBool bool
  | JNum rat
  | JStr jsstring
  | JArr "json list"
  | JObj "(jsstring \<times> json) list"

text \<open>What is raised: an \<open>Error\<close> object with its message, or any other value.\<close>

datatype thrown = Error jsstring | NotAnError

text \<open>
  \<open>ToBoolean\<close> on an optional value, \<open>None\<close> standing for \<open>undefined\<close>: this is the
  test that \<open>!x\<close>, \<open>x || y\<close> and \<open>if (x)\<close> make.
\<close>

fun truthy :: "json option \<Rightarrow> bool" where
  "truthy None = False"
| "truthy (Some JNull) = False"
| "truthy (Some (JBool b)) = b"
| "truthy (Some (JNum n)) = (n \<noteq> 0)"
| "truthy (Some (JStr s)) = (s \<noteq> [])"
| "truthy (Some (JArr xs)) = True"
| "truthy (Some (JObj kvs)) = True"

text \<open>
  Reading the property \<open>k\<close> of a parsed value (\<open>parsed.k\<close>): on \<open>null\<close> it raises a
  TypeError, on an object it gives the property or \<open>undefined\<close>, and on every other
  value \<open>undefined\<close> (for a name that no prototype defines, as \<open>targetPath\<close>).
\<close>

fun get_property :: "json \<Rightarrow> jsstring \<Rightarrow> thrown + json option" where
  "get_property JNull k =
     Inl (Error (lit ''Cannot read properties of null (reading '' @ [0x27] @ k @ [0x27] @ lit '')''))"
| "get_property (JObj kvs) k = Inr (map_of kvs k)"
| "get_property v k = Inr None"

subsection \<open>String.prototype.startsWith, substring, indexOf, split\<close>

definition startsWith :: "'a list \<Rightarrow> 'a list \<Rightarrow> bool" where
  "startsWith s p = (take (length p) s = p)"

definition substring_from :: "'a list \<Rightarrow> nat \<Rightarrow> 'a list" where
  "substring_from s n = drop n s"

definition substring :: "'a list \<Rightarrow> nat \<Rightarrow> nat \<Rightarrow> 'a list" where
  "substring s a b = take (max a b - min a b) (drop (min a b) s)"

text \<open>\<open>s.indexOf(p)\<close>: the first position at which \<open>p\<close> occurs, \<open>None\<close> for \<open>-1\<close>.\<close>

fun indexOf :: "'a list \<Rightarrow> 'a list \<Rightarrow> nat option" where
  "indexOf [] p = (if p = [] then Some 0 else None)"
| "indexOf (x # xs) p =
     (if startsWith (x # xs) p then Some 0 else map_option Suc (indexOf xs p))"

lemma indexOf_bound: "indexOf s p = Some j \<Longrightarrow> j + length p \<le> length s"
proof (induction s arbitrary: j)
  case Nil
  then show ?case by (simp split: if_splits)
next
  case (Cons x xs)
  show ?case
  proof (cases "startsWith (x # xs) p")
    case True
    then have "length (take (length p) (x # xs)) = length p"
      unfolding startsWith_def by simp
    then have "length p \<le> length (x # xs)" by (simp only: length_take)
    with True Cons.prems show ?thesis by simp
  next
    case False
    with Cons.prems obtain i where "indexOf xs p = Some i" and "j = Suc i"
      by auto
    with Cons.IH show ?thesis by fastforce
  qed
qed

text \<open>
  \<open>s.split(sep)\<close> for a string separator: with the empty separator every code unit is a
  segment of its own; otherwise the segment before the first occurrence of the separator
  is cut off and the search goes on behind that occurrence; what is left after the last
  occurrence is the last segment. The result is never empty for a non-empty separator.
\<close>

function js_split :: "'a list \<Rightarrow> 'a list \<Rightarrow> 'a list list" where
  "js_split s sep =
     (if sep = [] then map (\<lambda>c. [c]) s
      else (case indexOf s sep of
              None \<Rightarrow> [s]
            | Some j \<Rightarrow> take j s # js_split (drop (j + length sep) s) sep))"
  by pat_completeness auto
termination
proof (relation "measure (\<lambda>(s, sep). length s)")
  show "wf (measure (\<lambda>(s, sep). length s))" by simp
next
  fix s sep :: "'a list" and j
  assume "sep \<noteq> []" and "indexOf s sep = Some j"
  then have "j + length sep \<le> length s" and "0 < length sep"
    by (simp_all add: indexOf_bound)
  then have "length s - (j + length sep) < length s" by arith
  then show "((drop (j + length sep) s, sep), (s, sep)) \<in> measure (\<lambda>(s, sep). length s)"
    by simp
qed

declare js_split.simps [simp del]

text \<open>\<open>xs.pop()\<close>: the last element (\<open>undefined\<close> on an empty array) and the array left.\<close>

definition pop :: "'a list \<Rightarrow> 'a option \<times> 'a list" where
  "pop xs = (if xs = [] then (None, []) else (Some (last xs), butlast xs))"

text \<open>\<open>v || ''\<close> on an optional string: \<open>undefined\<close> and the empty string are falsy.\<close>

definition or_empty :: "'a list option \<Rightarrow> 'a list" where
  "or_empty v = (case v of None \<Rightarrow> [] | Some s \<Rightarrow> if s = [] then [] else s)"

subsection \<open>Buffer.prototype.toString\<close>

text \<open>
  \<open>chunk.toString()\<close> decodes the bytes of one chunk as UTF-8, on its own: the decoder
  of the Encoding Standard, which puts U+FFFD for every ill-formed or truncated sequence.
  The state is the code point read so far, the number of continuation bytes still
  needed, and the range the next continuation byte must lie in.
\<close>

type_synonym utf8_state = "nat \<times> nat \<times> nat \<times> nat"

definition utf8_lead :: "nat \<Rightarrow> nat list \<times> utf8_state" where
  "utf8_lead b =
     (if b \<le> 0x7F then ([b], (0, 0, 0x80, 0xBF))
      else if 0xC2 \<le> b \<and> b \<le> 0xDF then ([], (b - 0xC0, 1, 0x80, 0xBF))
      else if 0xE0 \<le> b \<and> b \<le> 0xEF then
        ([], (b - 0xE0, 2, if b = 0xE0 then 0xA0 else 0x80, if b = 0xED then 0x9F else 0xBF))
      else if 0xF0 \<le> b \<and> b \<le> 0xF4 then
        ([], (b - 0xF0, 3, if b = 0xF0 then 0x90 else 0x80, if b = 0xF4 then 0x8F else 0xBF))
      else ([0xFFFD], (0, 0, 0x80, 0xBF)))"

fun utf8_decode :: "utf8_state \<Rightarrow> nat list \<Rightarrow> nat list" where
  "utf8_decode (cp, needed, lo, hi) [] = (if needed = 0 then [] else [0xFFFD])"
| "utf8_decode (cp, needed, lo, hi) (b # bs) =
     (if needed = 0 then
        (case utf8_lead b of (out, st) \<Rightarrow> out @ utf8_decode st bs)
      else if b < lo \<or> hi < b then
        (case utf8_lead b of (out, st) \<Rightarrow> 0xFFFD # out @ utf8_decode st bs)
      else if needed = 1 then
        (cp * 64 + (b - 0x80)) # utf8_decode (0, 0, 0x80, 0xBF) bs
      else utf8_decode (cp * 64 + (b - 0x80), needed - 1, 0x80, 0xBF) bs)"

text \<open>A code point as UTF-16: one code unit, or a surrogate pair above U+FFFF.\<close>

definition utf16_units :: "nat \<Rightarrow> jsstring" where
  "utf16_units c =
     (if c < 0x10000 then [of_nat c]
      else [of_nat (0xD800 + (c - 0x10000) div 0x400),
            of_nat (0xDC00 + (c - 0x10000) mod 0x400)])"

definition utf8_toString :: "byte list \<Rightarrow> jsstring" where
  "utf8_toString bs =
     concat (map utf16_units (utf8_decode (0, 0, 0x80, 0xBF) (map unat bs)))"

text \<open>The bytes of an ASCII literal.\<close>

definition ascii :: "string \<Rightarrow> byte list" where
  "ascii s = map (\<lambda>c. of_char c) s"

section \<open>The SSE relay: \<open>streamSSE\<close> (workflow-api/src/server.ts)\<close>

text \<open>
  What the downstream service sends back on one POST: the chunks of the response body
  as the \<open>data\<close> events deliver them, and then either the \<open>end\<close> event (\<open>None\<close>) or
  an \<open>error\<close> event of the request or the response.
\<close>

record downstream =
  chunks :: "byte list list"
  failure :: "thrown option"

text \<open>
  The variables the response callback closes over: \<open>buffer\<close> and \<open>lastEventData\<close>, and
  \<open>outer\<close>, the state of the caller that \<open>onData\<close> acts on. An exception raised inside
  \<open>onData\<close> is caught by the \<open>catch\<close> around it and has no further effect, so \<open>onData\<close>
  is a function on the caller's state.
\<close>

record 's relay =
  buffer :: jsstring
  lastEventData :: "json option"
  outer :: 's

text \<open>The body of \<open>for (const message of lines)\<close>.\<close>

definition on_message ::
  "(jsstring \<Rightarrow> json option) \<Rightarrow> (jsstring \<Rightarrow> 's \<Rightarrow> 's) \<Rightarrow> jsstring \<Rightarrow> 's relay \<Rightarrow> 's relay" where
  "on_message JSON_parse onData message r =
     (if startsWith message (lit ''data: '') then
        (let jsonStr = substring_from message 6 in
         case JSON_parse jsonStr of
           Some d \<Rightarrow> r\<lparr>lastEventData := Some d, outer := onData jsonStr (outer r)\<rparr>
         | None \<Rightarrow> r)
      else r)"

text \<open>The callback of \<open>response.on('data', ...)\<close>.\<close>

definition response_on_data ::
  "(byte list \<Rightarrow> jsstring) \<Rightarrow> (jsstring \<Rightarrow> json option) \<Rightarrow> (jsstring \<Rightarrow> 's \<Rightarrow> 's) \<Rightarrow>
     byte list \<Rightarrow> 's relay \<Rightarrow> 's relay" where
  "response_on_data toString JSON_parse onData chunk r =
     (let buffer1 = buffer r @ toString chunk;
          (popped, lines) = pop (js_split buffer1 (lit ''\<newline>\<newline>''))
      in fold (on_message JSON_parse onData) lines (r\<lparr>buffer := or_empty popped\<rparr>))"

text \<open>
  \<open>streamSSE(url, data, onData)\<close>: the POST of \<open>data\<close> to \<open>url\<close> is answered by
  \<open>http url data\<close>. The promise resolves with \<open>lastEventData\<close> (\<open>Inr\<close>; \<open>None\<close> is the
  initial \<open>null\<close>) at the \<open>end\<close> event and is rejected (\<open>Inl\<close>) at an \<open>error\<close> event.
\<close>

definition streamSSE ::
  "(byte list \<Rightarrow> jsstring) \<Rightarrow> (jsstring \<Rightarrow> json option) \<Rightarrow> (jsstring \<Rightarrow> json \<Rightarrow> downstream) \<Rightarrow>
     jsstring \<Rightarrow> json \<Rightarrow> (jsstring \<Rightarrow> 's \<Rightarrow> 's) \<Rightarrow> 's \<Rightarrow> 's \<times> (thrown + json option)" where
  "streamSSE toString JSON_parse http url data onData s =
     (let response = http url data;
          r = fold (response_on_data toString JSON_parse onData) (chunks response)
                \<lparr>buffer = [], lastEventData = None, outer = s\<rparr>
      in (outer r,
          case failure response of
            None \<Rightarrow> Inr (lastEventData r)
          | Some e \<Rightarrow> Inl e))"

section \<open>The workflow server (workflow-api/src/server.ts)\<close>

text \<open>
  \<open>serverStatus\<close>, the addresses of the two downstream services, and what the server
  sends. An event is one \<open>res.write\<close> of \<open>data: ...\<close> followed by an empty line; its
  constructor stands for the object that is serialised (the \<open>timestamp\<close> field, read
  from the clock, is left out), and \<open>Raw\<close> is a frame forwarded as it came. A field of
  type \<open>json option\<close> is \<open>undefined\<close> when \<open>None\<close>.
\<close>

datatype server_status = Idle | Busy

record config =
  GITHUB_PULL_API :: jsstring
  CLAUDE_CODE_API :: jsstring

datatype event =
    Workflow_started_pull jsstring "json option" "json option"
  | Message_pulling "json option"
  | Pull_progress json
  | Workflow_step_complete json
  | Workflow_started_execute jsstring "json option" json
  | Message_executing json
  | Raw jsstring
  | Workflow_complete jsstring
  | Workflow_error jsstring jsstring

text \<open>The \<open>type\<close> field of an event the server builds itself.\<close>

fun event_type :: "event \<Rightarrow> string option" where
  "event_type (Workflow_started_pull w p u) = Some ''workflow_started''"
| "event_type (Message_pulling u) = Some ''message''"
| "event_type (Pull_progress d) = Some ''pull_progress''"
| "event_type (Workflow_step_complete t) = Some ''workflow_step_complete''"
| "event_type (Workflow_started_execute w p t) = Some ''workflow_started''"
| "event_type (Message_executing t) = Some ''message''"
| "event_type (Raw d) = None"
| "event_type (Workflow_complete w) = Some ''workflow_complete''"
| "event_type (Workflow_error w e) = Some ''workflow_error''"

datatype reply =
    Health_reply jsstring jsstring
  | Status_reply server_status
  | Error_reply jsstring

datatype console_line = Console_log jsstring | Console_error jsstring thrown

text \<open>
  The Express response object of one request: the status code (200 unless set), the
  headers set, the body sent by \<open>res.json\<close>, the events written, and whether the
  response was ended.
\<close>

record response =
  statusCode :: nat
  headers :: "(string \<times> string) list"
  json_sent :: "reply option"
  written :: "event list"
  ended :: bool

definition new_response :: response where
  "new_response = \<lparr>statusCode = 200, headers = [], json_sent = None, written = [], ended = False\<rparr>"

definition res_status :: "nat \<Rightarrow> response \<Rightarrow> response" where
  "res_status code r = r\<lparr>statusCode := code\<rparr>"

definition res_json :: "reply \<Rightarrow> response \<Rightarrow> response" where
  "res_json body r = r\<lparr>json_sent := Some body, ended := True\<rparr>"

definition res_setHeader :: "string \<Rightarrow> string \<Rightarrow> response \<Rightarrow> response" where
  "res_setHeader name v r = r\<lparr>headers := headers r @ [(name, v)]\<rparr>"

definition res_write :: "event \<Rightarrow> response \<Rightarrow> response" where
  "res_write e r = r\<lparr>written := written r @ [e]\<rparr>"

definition res_end :: "response \<Rightarrow> response" where
  "res_end r = r\<lparr>ended := True\<rparr>"

text \<open>
  The state of the process outside any one request: \<open>serverStatus\<close>, the console, the
  exit codes of the \<open>process.exit\<close> calls scheduled with \<open>setTimeout\<close>, and the POSTs
  issued to the downstream services (address and payload), in order.
\<close>

record process =
  serverStatus :: server_status
  console :: "console_line list"
  exits :: "int list"
  posted :: "(jsstring \<times> json) list"

text \<open>
  The fields the handler reads from \<open>req.body\<close>, the object that the JSON middleware
  parsed: a property that is absent is \<open>undefined\<close>.
\<close>

record body =
  prompt :: "json option"
  repoUrl :: "json option"
  branch :: "json option"
  directory :: "json option"

text \<open>The handler's own variables that its callbacks act on.\<close>

record locals =
  res :: response
  targetPath :: json

text \<open>An object literal as \<open>JSON.stringify\<close> sends it: \<open>undefined\<close> properties are left out.\<close>

definition object_of :: "(string \<times> json option) list \<Rightarrow> json" where
  "object_of kvs = JObj (List.map_filter (\<lambda>(k, v). map_option (\<lambda>x. (lit k, x)) v) kvs)"

subsection \<open>GET /health and GET /status\<close>

definition get_health :: "config \<Rightarrow> response" where
  "get_health cfg = res_json (Health_reply (GITHUB_PULL_API cfg) (CLAUDE_CODE_API cfg)) new_response"

definition get_status :: "process \<Rightarrow> response" where
  "get_status g = res_json (Status_reply (serverStatus g)) new_response"

subsection \<open>POST /api/workflow\<close>

text \<open>The callback of the pull step (lines 142 to 159).\<close>

definition pull_onData :: "(jsstring \<Rightarrow> json option) \<Rightarrow> jsstring \<Rightarrow> locals \<Rightarrow> locals" where
  "pull_onData JSON_parse data f =
     (case JSON_parse data of
        None \<Rightarrow> f
      | Some v \<Rightarrow>
          (let f1 = f\<lparr>res := res_write (Pull_progress v) (res f)\<rparr> in
           case JSON_parse data of
             None \<Rightarrow> f1
           | Some parsed \<Rightarrow>
               (case get_property parsed (lit ''targetPath'') of
                  Inl e \<Rightarrow> f1
                | Inr None \<Rightarrow> f1
                | Inr (Some t) \<Rightarrow> if truthy (Some t) then f1\<lparr>targetPath := t\<rparr> else f1)))"

text \<open>The callback of the execution step (lines 192 to 195).\<close>

definition execute_onData :: "jsstring \<Rightarrow> locals \<Rightarrow> locals" where
  "execute_onData data f = f\<lparr>res := res_write (Raw data) (res f)\<rparr>"

text \<open>The \<open>catch\<close> block (lines 209 to 224).\<close>

definition error_text :: "thrown \<Rightarrow> jsstring" where
  "error_text error = (case error of Error m \<Rightarrow> m | NotAnError \<Rightarrow> lit ''Unknown error'')"

definition workflow_catch :: "jsstring \<Rightarrow> thrown \<Rightarrow> process \<Rightarrow> response \<Rightarrow> process \<times> response" where
  "workflow_catch workflowId error g r =
     (g\<lparr>console := console g @
          [Console_error (lit ''Workflow error:'') error,
           Console_log (lit ''Workflow failed. Exiting process...'')],
        exits := exits g @ [1]\<rparr>,
      res_end (res_write (Workflow_error workflowId (error_text error)) r))"

text \<open>
  The handler up to its first \<open>await\<close> (lines 105 to 142): the request is refused
  (\<open>Inl\<close>), or the workflow has started and the pull request is on its way (\<open>Inr\<close>).
\<close>

definition pullUrl :: "config \<Rightarrow> jsstring" where
  "pullUrl cfg = GITHUB_PULL_API cfg @ lit ''/api/pull''"

definition executeUrl :: "config \<Rightarrow> jsstring" where
  "executeUrl cfg = CLAUDE_CODE_API cfg @ lit ''/api/execute''"

definition pull_payload :: "body \<Rightarrow> json" where
  "pull_payload b =
     object_of [(''repoUrl'', repoUrl b), (''branch'', branch b), (''directory'', directory b)]"

definition execute_payload :: "body \<Rightarrow> json \<Rightarrow> json" where
  "execute_payload b workspace =
     object_of [(''prompt'', prompt b), (''workspace'', Some workspace),
                (''dangerouslySkipPermissions'', Some (JBool True))]"

definition workflow_begin ::
  "config \<Rightarrow> jsstring \<Rightarrow> body \<Rightarrow> process \<Rightarrow> process \<times> (response + locals)" where
  "workflow_begin cfg workflowId b g =
     (if \<not> truthy (prompt b) \<or> \<not> truthy (repoUrl b) then
        (g, Inl (res_json (Error_reply (lit ''prompt and repoUrl are required''))
                   (res_status 400 new_response)))
      else
        (let g1 = g\<lparr>serverStatus := Busy\<rparr>;
             r1 = res_setHeader ''X-Accel-Buffering'' ''no''
                    (res_setHeader ''Connection'' ''keep-alive''
                      (res_setHeader ''Cache-Control'' ''no-cache''
                        (res_setHeader ''Content-Type'' ''text/event-stream'' new_response)));
             r2 = res_write (Workflow_started_pull workflowId (prompt b) (repoUrl b)) r1;
             r3 = res_write (Message_pulling (repoUrl b)) r2
         in (g1\<lparr>posted := posted g1 @ [(pullUrl cfg, pull_payload b)]\<rparr>,
             Inr \<lparr>res = r3, targetPath = JStr []\<rparr>)))"

text \<open>The pull step: the first \<open>streamSSE\<close> call with its callback.\<close>

definition pull_step ::
  "(byte list \<Rightarrow> jsstring) \<Rightarrow> (jsstring \<Rightarrow> json option) \<Rightarrow> (jsstring \<Rightarrow> json \<Rightarrow> downstream) \<Rightarrow>
     config \<Rightarrow> body \<Rightarrow> locals \<Rightarrow> locals \<times> (thrown + json option)" where
  "pull_step toString JSON_parse http cfg b f =
     streamSSE toString JSON_parse http (pullUrl cfg) (pull_payload b) (pull_onData JSON_parse) f"

text \<open>Lines 161 to 188: between the two calls, and the second call.\<close>

definition execute_step ::
  "(byte list \<Rightarrow> jsstring) \<Rightarrow> (jsstring \<Rightarrow> json option) \<Rightarrow> (jsstring \<Rightarrow> json \<Rightarrow> downstream) \<Rightarrow>
     config \<Rightarrow> jsstring \<Rightarrow> body \<Rightarrow> process \<Rightarrow> locals \<Rightarrow> process \<times> locals \<times> (thrown + json option)" where
  "execute_step toString JSON_parse http cfg workflowId b g f =
     (let r1 = res_write (Workflow_step_complete (targetPath f)) (res f);
          r2 = res_write (Workflow_started_execute workflowId (prompt b) (targetPath f)) r1;
          r3 = res_write (Message_executing (targetPath f)) r2;
          data = execute_payload b (targetPath f)
      in (g\<lparr>posted := posted g @ [(executeUrl cfg, data)]\<rparr>,
          streamSSE toString JSON_parse http (executeUrl cfg) data execute_onData (f\<lparr>res := r3\<rparr>)))"

text \<open>Lines 197 to 207: the end of the \<open>try\<close> block.\<close>

definition workflow_done :: "jsstring \<Rightarrow> process \<Rightarrow> response \<Rightarrow> process \<times> response" where
  "workflow_done workflowId g r =
     (g\<lparr>console := console g @
          [Console_log (lit ''Workflow completed successfully. Exiting process...'')],
        exits := exits g @ [0]\<rparr>,
      res_end (res_write (Workflow_complete workflowId) r))"

text \<open>
  The whole handler, for one request: \<open>workflowId\<close> is what \<open>randomUUID()\<close> gives, and
  \<open>http\<close> answers the POSTs.
\<close>

definition post_workflow ::
  "(byte list \<Rightarrow> jsstring) \<Rightarrow> (jsstring \<Rightarrow> json option) \<Rightarrow> (jsstring \<Rightarrow> json \<Rightarrow> downstream) \<Rightarrow>
     config \<Rightarrow> jsstring \<Rightarrow> body \<Rightarrow> process \<Rightarrow> process \<times> response" where
  "post_workflow toString JSON_parse http cfg workflowId b g =
     (case workflow_begin cfg workflowId b g of
        (g1, Inl refused) \<Rightarrow> (g1, refused)
      | (g1, Inr f0) \<Rightarrow>
          (case pull_step toString JSON_parse http cfg b f0 of
             (f1, Inl error) \<Rightarrow> workflow_catch workflowId error g1 (res f1)
           | (f1, Inr pulled) \<Rightarrow>
               (case execute_step toString JSON_parse http cfg workflowId b g1 f1 of
                  (g2, f2, Inl error) \<Rightarrow> workflow_catch workflowId error g2 (res f2)
                | (g2, f2, Inr executed) \<Rightarrow> workflow_done workflowId g2 (res f2))))"

text \<open>
  The server with the responses of its open connections. A request that arrives runs
  the handler up to its first \<open>await\<close> in one piece, on a response object of its own.
\<close>

record server =
  proc :: process
  connections :: "nat \<Rightarrow> response option"

definition workflow_arrives :: "config \<Rightarrow> nat \<Rightarrow> jsstring \<Rightarrow> body \<Rightarrow> server \<Rightarrow> server" where
  "workflow_arrives cfg c workflowId b srv =
     (case workflow_begin cfg workflowId b (proc srv) of
        (g1, Inl refused) \<Rightarrow> srv\<lparr>proc := g1, connections := (connections srv)(c \<mapsto> refused)\<rparr>
      | (g1, Inr f0) \<Rightarrow> srv\<lparr>proc := g1, connections := (connections srv)(c \<mapsto> res f0)\<rparr>)"

section \<open>Commit messages: \<open>LLMHelper.generateCommitMessage\<close> (src/utils/llmHelper.ts)\<close>

text \<open>
  The request sent with \<open>client.messages.create\<close> and what comes back: the call raises
  (\<open>Inl\<close>; a timeout is one of the errors the client raises) or returns the content
  blocks of the response. A block is a text block or a block of another type.
\<close>

record message_request =
  request_model :: jsstring
  max_tokens :: nat
  user_content :: jsstring

datatype content_block = Text_block jsstring | Other_block jsstring

datatype log_entry = Logger_info jsstring jsstring | Logger_error jsstring thrown

text \<open>\<open>String.prototype.trim\<close>: white space and line terminators go from both ends.\<close>

definition js_whitespace :: "16 word \<Rightarrow> bool" where
  "js_whitespace c =
     (c \<in> {0x9, 0xA, 0xB, 0xC, 0xD, 0x20, 0xA0, 0x1680, 0x2028, 0x2029, 0x202F, 0x205F,
            0x3000, 0xFEFF} \<or> (0x2000 \<le> c \<and> c \<le> 0x200A))"

definition trim :: "jsstring \<Rightarrow> jsstring" where
  "trim s = rev (dropWhile js_whitespace (rev (dropWhile js_whitespace s)))"

definition commit_prompt :: "jsstring \<Rightarrow> jsstring \<Rightarrow> jsstring" where
  "commit_prompt gitStatus gitDiff =
     lit (''Analyze the following git changes and generate a concise, conventional '' @
          ''commit message. Follow these rules:\<newline>'' @
          ''- Use conventional commit format (e.g., \"feat:\", \"fix:\", \"refactor:\", '' @
          ''\"docs:\", etc.)\<newline>'' @
          ''- Keep the summary line under 72 characters\<newline>'' @
          ''- Be specific about what changed\<newline>'' @
          ''- Only return the commit message, nothing else\<newline>\<newline>'' @
          ''Git status:\<newline>'')
     @ gitStatus @ lit ''\<newline>\<newline>Git diff:\<newline>''
     @ substring gitDiff 0 4000 @ lit ''\<newline>\<newline>Commit message:''"

definition commit_request :: "jsstring \<Rightarrow> jsstring \<Rightarrow> message_request" where
  "commit_request gitStatus gitDiff =
     \<lparr>request_model = lit ''claude-haiku-4-5-20251001'', max_tokens = 200,
      user_content = commit_prompt gitStatus gitDiff\<rparr>"

text \<open>
  The \<open>try\<close> block: what was logged, and the message returned (\<open>Inr\<close>) or the value
  raised (\<open>Inl\<close>). Reading \<open>type\<close> of \<open>content[0]\<close> raises a TypeError when the
  response has no content block.
\<close>

definition generateCommitMessage_try ::
  "(message_request \<Rightarrow> thrown + content_block list) \<Rightarrow> jsstring \<Rightarrow> jsstring \<Rightarrow>
     log_entry list \<times> (thrown + jsstring)" where
  "generateCommitMessage_try messages_create gitStatus gitDiff =
     (case messages_create (commit_request gitStatus gitDiff) of
        Inl error \<Rightarrow> ([], Inl error)
      | Inr [] \<Rightarrow>
          ([], Inl (Error (lit ''Cannot read properties of undefined (reading 'type')'')))
      | Inr (Other_block ty # rest) \<Rightarrow>
          ([], Inl (Error (lit ''Unexpected response type from LLM'')))
      | Inr (Text_block text # rest) \<Rightarrow>
          (let commitMessage = trim text
           in ([Logger_info (lit ''Generated commit message'') commitMessage],
               Inr commitMessage)))"

text \<open>The method: the \<open>try\<close> block and its \<open>catch\<close>.\<close>

definition generateCommitMessage ::
  "(message_request \<Rightarrow> thrown + content_block list) \<Rightarrow> jsstring \<Rightarrow> jsstring \<Rightarrow>
     log_entry list \<times> (thrown + jsstring)" where
  "generateCommitMessage messages_create gitStatus gitDiff =
     (case generateCommitMessage_try messages_create gitStatus gitDiff of
        (logged, Inr commitMessage) \<Rightarrow> (logged, Inr commitMessage)
      | (logged, Inl error) \<Rightarrow>
          (logged @ [Logger_error (lit ''Failed to generate commit message'') error],
           Inr (lit ''chore: auto-commit changes'')))"

section \<open>Query options: \<open>ClaudeCodeProvider.createQueryOptions\<close>\<close>

text \<open>
  The provider object, the options of a call, and the options handed to the agent SDK.
  \<open>skipPermissions\<close> is an optional boolean; \<open>None\<close> is a property that is not set.
\<close>

record provider =
  this_model :: jsstring
  this_workspace :: jsstring

record provider_options =
  model :: "jsstring option"
  skipPermissions :: "bool option"

record execute_options =
  resumeSessionId :: "jsstring option"
  providerOptions :: "provider_options option"

datatype permission_mode = BypassPermissions | DefaultPermissions

record query_options =
  query_model :: jsstring
  cwd :: jsstring
  systemPrompt :: jsstring
  allowDangerouslySkipPermissions :: bool
  permissionMode :: permission_mode
  resume :: "jsstring option"

text \<open>\<open>a || b\<close> on an optional string, and \<open>a ?? b\<close> on an optional boolean.\<close>

definition or_else :: "jsstring option \<Rightarrow> jsstring \<Rightarrow> jsstring" where
  "or_else a b = (case a of None \<Rightarrow> b | Some s \<Rightarrow> if s = [] then b else s)"

definition nullish_else :: "bool option \<Rightarrow> bool \<Rightarrow> bool" where
  "nullish_else a b = (case a of None \<Rightarrow> b | Some v \<Rightarrow> v)"

definition createQueryOptions :: "provider \<Rightarrow> execute_options \<Rightarrow> query_options" where
  "createQueryOptions this options =
     (let providerOptions1 =
            (case providerOptions options of
               None \<Rightarrow> \<lparr>model = None, skipPermissions = None\<rparr>
             | Some p \<Rightarrow> p);
          skipPermissions1 = nullish_else (skipPermissions providerOptions1) True;
          queryOptions =
            \<lparr>query_model = or_else (model providerOptions1) (this_model this),
             cwd = this_workspace this,
             systemPrompt =
               lit (''You are Claude Code, running in a containerized environment. '' @
                    ''The working directory is '') @ this_workspace this @ lit ''.'',
             allowDangerouslySkipPermissions = skipPermissions1,
             permissionMode =
               (if skipPermissions1 then BypassPermissions else DefaultPermissions),
             resume = None\<rparr>
      in case resumeSessionId options of
           None \<Rightarrow> queryOptions
         | Some sessionId \<Rightarrow>
             if sessionId = [] then queryOptions else queryOptions\<lparr>resume := Some sessionId\<rparr>)"

section \<open>The relay as the design describes it\<close>

text \<open>
  The words of the design, as definitions of their own: the text received is cut at
  the delimiter (an empty line); every segment but the last is a complete frame and the
  last one is pending; a complete frame that begins with the marker \<open>data: \<close> has a
  body, the rest of the frame; a body is accepted when it parses, and the record it
  parses to is kept. \<open>join_with\<close> is \<open>Array.prototype.join\<close>.
\<close>

fun join_with :: "'a list \<Rightarrow> 'a list list \<Rightarrow> 'a list" where
  "join_with sep [] = []"
| "join_with sep [x] = x"
| "join_with sep (x # y # ys) = x @ sep @ join_with sep (y # ys)"

definition complete_frames :: "jsstring \<Rightarrow> jsstring list" where
  "complete_frames text = butlast (js_split text (lit ''\<newline>\<newline>''))"

definition pending_segment :: "jsstring \<Rightarrow> jsstring" where
  "pending_segment text = last (js_split text (lit ''\<newline>\<newline>''))"

definition data_bodies :: "jsstring list \<Rightarrow> jsstring list" where
  "data_bodies frames =
     map (\<lambda>m. drop 6 m) (filter (\<lambda>m. take 6 m = lit ''data: '') frames)"

definition accepted_bodies :: "(jsstring \<Rightarrow> json option) \<Rightarrow> jsstring list \<Rightarrow> jsstring list" where
  "accepted_bodies JSON_parse frames =
     filter (\<lambda>b. JSON_parse b \<noteq> None) (data_bodies frames)"

definition parsed_records :: "(jsstring \<Rightarrow> json option) \<Rightarrow> jsstring list \<Rightarrow> json list" where
  "parsed_records JSON_parse frames = List.map_filter JSON_parse (data_bodies frames)"

definition last_record :: "'a option \<Rightarrow> 'a list \<Rightarrow> 'a option" where
  "last_record old ds = (if ds = [] then old else Some (last ds))"

text \<open>
  The events that close a workflow, the events of the execution step, and the workspace
  path the pull step ends with.
\<close>

fun terminal :: "event \<Rightarrow> bool" where
  "terminal (Workflow_complete w) = True"
| "terminal (Workflow_error w e) = True"
| "terminal ev = False"

fun execution_event :: "event \<Rightarrow> bool" where
  "execution_event (Workflow_step_complete t) = True"
| "execution_event (Workflow_started_execute w p t) = True"
| "execution_event (Message_executing t) = True"
| "execution_event (Raw d) = True"
| "execution_event (Workflow_complete w) = True"
| "execution_event ev = False"

definition pulled_path ::
  "(byte list \<Rightarrow> jsstring) \<Rightarrow> (jsstring \<Rightarrow> json option) \<Rightarrow> (jsstring \<Rightarrow> json \<Rightarrow> downstream) \<Rightarrow>
     config \<Rightarrow> body \<Rightarrow> json" where
  "pulled_path toString JSON_parse http cfg b =
     targetPath (fst (pull_step toString JSON_parse http cfg b
                        \<lparr>res = new_response, targetPath = JStr []\<rparr>))"

text \<open>What one frame of the pull stream does to the workspace path.\<close>

definition next_path :: "(jsstring \<Rightarrow> json option) \<Rightarrow> jsstring \<Rightarrow> json \<Rightarrow> json" where
  "next_path JSON_parse data path =
     (case JSON_parse data of
        None \<Rightarrow> path
      | Some parsed \<Rightarrow>
          (case get_property parsed (lit ''targetPath'') of
             Inl e \<Rightarrow> path
           | Inr None \<Rightarrow> path
           | Inr (Some t) \<Rightarrow> if truthy (Some t) then t else path))"

section \<open>Inputs for the examples\<close>

text \<open>
  An \<open>onData\<close> that collects what it is given; a service that gives the same answer to
  every POST, and a pair of services told apart by the address; \<open>JSON.parse\<close> on the
  texts the examples meet: \<open>1\<close> and \<open>2\<close> are numbers, and the other text met there,
  \<open>{bad\<close>, is no JSON; further down, the two string texts are the only ones met.
\<close>

definition collect :: "jsstring \<Rightarrow> jsstring list \<Rightarrow> jsstring list" where
  "collect d ds = ds @ [d]"

definition answering :: "downstream \<Rightarrow> jsstring \<Rightarrow> json \<Rightarrow> downstream" where
  "answering response url data = response"

definition services :: "config \<Rightarrow> downstream \<Rightarrow> downstream \<Rightarrow> jsstring \<Rightarrow> json \<Rightarrow> downstream" where
  "services cfg pull execute url data = (if url = pullUrl cfg then pull else execute)"

definition parse_numbers :: "jsstring \<Rightarrow> json option" where
  "parse_numbers = map_of [(lit ''1'', JNum 1), (lit ''2'', JNum 2)]"

text \<open>
  The JSON text of the one-letter string \<open>e\<close> with an acute accent (U+00E9, in UTF-8
  the bytes C3 A9), and of the string of two replacement characters U+FFFD.
\<close>

definition accented_text :: jsstring where
  "accented_text = lit ''\"'' @ [0xE9] @ lit ''\"''"

definition replaced_text :: jsstring where
  "replaced_text = lit ''\"'' @ [0xFFFD, 0xFFFD] @ lit ''\"''"

definition parse_strings :: "jsstring \<Rightarrow> json option" where
  "parse_strings =
     map_of [(accented_text, JStr [0xE9]), (replaced_text, JStr [0xFFFD, 0xFFFD])]"

definition accented_frame :: "byte list" where
  "accented_frame = ascii ''data: \"'' @ [0xC3, 0xA9] @ ascii ''\"\<newline>\<newline>''"

definition example_config :: config where
  "example_config = \<lparr>GITHUB_PULL_API = lit ''http://pull'', CLAUDE_CODE_API = lit ''http://claude''\<rparr>"

definition example_body :: body where
  "example_body =
     \<lparr>prompt = Some (JStr (lit ''fix'')), repoUrl = Some (JStr (lit ''repo'')),
      branch = None, directory = None\<rparr>"

definition idle_process :: process where
  "idle_process = \<lparr>serverStatus = Idle, console = [], exits = [], posted = []\<rparr>"

definition broken_stream :: downstream where
  "broken_stream =
     \<lparr>chunks = [ascii ''data: 1\<newline>\<newline>data: {b'', ascii ''ad\<newline>\<newline>data: 2\<newline>\<newline>''],
      failure = None\<rparr>"

definition empty_stream :: downstream where
  "empty_stream = \<lparr>chunks = [], failure = None\<rparr>"

definition busy_process :: process where
  "busy_process =
     \<lparr>serverStatus = Busy, console = [], exits = [],
      posted = [(lit ''http://pull/api/pull'', JObj [(lit ''repoUrl'', JStr (lit ''first''))])]\<rparr>"

definition first_job_response :: response where
  "first_job_response =
     \<lparr>statusCode = 200, headers = [(''Content-Type'', ''text/event-stream'')], json_sent = None,
      written = [Workflow_started_pull (lit ''w0'') (Some (JStr (lit ''go''))) (Some (JStr (lit ''first''))),
                 Message_pulling (Some (JStr (lit ''first'')))],
      ended = False\<rparr>"

definition busy_server :: server where
  "busy_server = \<lparr>proc = busy_process, connections = Map.empty(0 \<mapsto> first_job_response)\<rparr>"

definition body_without_prompt :: body where
  "body_without_prompt =
     \<lparr>prompt = None, repoUrl = Some (JStr (lit ''repo'')), branch = None, directory = None\<rparr>"

definition failing_stream :: downstream where
  "failing_stream = \<lparr>chunks = [ascii ''data: 1\<newline>\<newline>''], failure = Some (Error (lit ''socket hang up''))\<rparr>"

definition timed_out :: "message_request \<Rightarrow> thrown + content_block list" where
  "timed_out request = Inl (Error (lit ''Request timed out.''))"

definition example_provider :: provider where
  "example_provider = \<lparr>this_model = lit ''claude-sonnet-4-5-20250929'', this_workspace = lit ''/workspace''\<rparr>"

section \<open>Properties of \<open>split\<close>\<close>

lemma startsWith_append:
  "length p \<le> length s \<Longrightarrow> startsWith (s @ t) p = startsWith s p"
  by (simp add: startsWith_def)

lemma indexOf_append: "indexOf s p = Some j \<Longrightarrow> indexOf (s @ t) p = Some j"
proof (induction s arbitrary: j)
  case Nil
  then show ?case by (cases t) (simp_all add: startsWith_def split: if_splits)
next
  case (Cons x xs)
  from Cons.prems have fits: "length p \<le> length (x # xs)"
    using indexOf_bound by fastforce
  show ?case
  proof (cases "startsWith (x # xs) p")
    case True
    with Cons.prems have "j = 0" by simp
    moreover from True fits have "startsWith ((x # xs) @ t) p"
      using startsWith_append [of p "x # xs" t] by blast
    ultimately show ?thesis by simp
  next
    case False
    with Cons.prems obtain i where i: "indexOf xs p = Some i" "j = Suc i"
      by auto
    from False fits have "\<not> startsWith ((x # xs) @ t) p"
      using startsWith_append [of p "x # xs" t] by blast
    with i Cons.IH show ?thesis by simp
  qed
qed

lemma indexOf_found: "indexOf s p = Some j \<Longrightarrow> take (length p) (drop j s) = p"
proof (induction s arbitrary: j)
  case Nil
  then show ?case by (simp split: if_splits)
next
  case (Cons x xs)
  show ?case
  proof (cases "startsWith (x # xs) p")
    case True
    with Cons.prems show ?thesis by (simp add: startsWith_def)
  next
    case False
    with Cons.prems obtain i where "indexOf xs p = Some i" "j = Suc i"
      by auto
    with Cons.IH show ?thesis by simp
  qed
qed

lemma indexOf_take: "p \<noteq> [] \<Longrightarrow> indexOf s p = Some j \<Longrightarrow> indexOf (take j s) p = None"
proof (rule ccontr)
  assume p: "p \<noteq> []" and found: "indexOf s p = Some j"
  assume "indexOf (take j s) p \<noteq> None"
  then obtain i where i: "indexOf (take j s) p = Some i" by auto
  then have "indexOf (take j s @ drop j s) p = Some i" by (rule indexOf_append)
  with found have "i = j" by simp
  moreover from i have "i + length p \<le> length (take j s)" by (rule indexOf_bound)
  ultimately have "length p = 0" by simp
  with p show False by simp
qed

lemma js_split_not_Nil: "sep \<noteq> [] \<Longrightarrow> js_split s sep \<noteq> []"
  by (subst js_split.simps) (simp split: option.split)

lemma js_split_append:
  "sep \<noteq> [] \<Longrightarrow>
   js_split (s @ t) sep = butlast (js_split s sep) @ js_split (last (js_split s sep) @ t) sep"
proof (induction s sep rule: js_split.induct)
  case (1 s sep)
  show ?case
  proof (cases "indexOf s sep")
    case None
    with "1.prems" have "js_split s sep = [s]"
      by (subst js_split.simps) simp
    then show ?thesis by simp
  next
    case (Some j)
    let ?rest = "drop (j + length sep) s"
    from Some have bound: "j + length sep \<le> length s"
      by (rule indexOf_bound)
    from Some "1.prems" have whole: "js_split s sep = take j s # js_split ?rest sep"
      by (subst js_split.simps) simp
    from Some have "indexOf (s @ t) sep = Some j"
      by (rule indexOf_append)
    with "1.prems" bound
    have "js_split (s @ t) sep = take j s # js_split (?rest @ t) sep"
      by (subst js_split.simps) simp
    also have "js_split (?rest @ t) sep =
        butlast (js_split ?rest sep) @ js_split (last (js_split ?rest sep) @ t) sep"
      using "1.IH" [OF "1.prems" Some] "1.prems" by simp
    finally show ?thesis
      using whole js_split_not_Nil [OF "1.prems", of ?rest] by simp
  qed
qed

lemma js_split_last:
  "sep \<noteq> [] \<Longrightarrow> js_split (last (js_split s sep)) sep = [last (js_split s sep)]"
proof -
  assume sep: "sep \<noteq> []"
  let ?xs = "js_split s sep"
  from sep have ne: "?xs \<noteq> []" by (rule js_split_not_Nil)
  have "js_split (s @ []) sep = butlast ?xs @ js_split (last ?xs @ []) sep"
    using sep by (rule js_split_append)
  then have "butlast ?xs @ [last ?xs] = butlast ?xs @ js_split (last ?xs) sep"
    using ne by simp
  then show ?thesis by simp
qed

lemma join_with_Cons:
  "ys \<noteq> [] \<Longrightarrow> join_with sep (x # ys) = x @ sep @ join_with sep ys"
  by (cases ys) simp_all

lemma join_js_split: "sep \<noteq> [] \<Longrightarrow> join_with sep (js_split s sep) = s"
proof (induction s sep rule: js_split.induct)
  case (1 s sep)
  show ?case
  proof (cases "indexOf s sep")
    case None
    with "1.prems" have "js_split s sep = [s]"
      by (subst js_split.simps) simp
    then show ?thesis by simp
  next
    case (Some j)
    let ?rest = "drop (j + length sep) s"
    from Some "1.prems" have whole: "js_split s sep = take j s # js_split ?rest sep"
      by (subst js_split.simps) simp
    from Some have "take (length sep) (drop j s) = sep" by (rule indexOf_found)
    then have "drop j s = sep @ ?rest"
      by (metis append_take_drop_id drop_drop add.commute)
    then have "s = take j s @ sep @ ?rest"
      by (metis append_take_drop_id)
    moreover have "join_with sep (js_split s sep) = take j s @ sep @ join_with sep (js_split ?rest sep)"
      unfolding whole by (rule join_with_Cons [OF js_split_not_Nil [OF "1.prems"]])
    ultimately show ?thesis
      using "1.IH" [OF "1.prems" Some] "1.prems" by simp
  qed
qed

lemma js_split_segments:
  "sep \<noteq> [] \<Longrightarrow> list_all (\<lambda>seg. indexOf seg sep = None) (js_split s sep)"
proof (induction s sep rule: js_split.induct)
  case (1 s sep)
  show ?case
  proof (cases "indexOf s sep")
    case None
    with "1.prems" have "js_split s sep = [s]"
      by (subst js_split.simps) simp
    with None show ?thesis by simp
  next
    case (Some j)
    let ?rest = "drop (j + length sep) s"
    from Some "1.prems" have whole: "js_split s sep = take j s # js_split ?rest sep"
      by (subst js_split.simps) simp
    from "1.prems" Some have "indexOf (take j s) sep = None" by (rule indexOf_take)
    then show ?thesis
      using "1.IH" [OF "1.prems" Some] "1.prems" by (simp add: whole)
  qed
qed

section \<open>The relay follows the design\<close>

lemma lit_nn_not_Nil: "lit ''\<newline>\<newline>'' \<noteq> []"
  by (simp add: lit_def)

lemma lit_data_length: "length (lit ''data: '') = 6"
  by (simp add: lit_def)

lemma on_message_cases:
  "on_message p f m r =
     (if take 6 m = lit ''data: '' then
        (case p (drop 6 m) of
           Some d \<Rightarrow> r\<lparr>lastEventData := Some d, outer := f (drop 6 m) (outer r)\<rparr>
         | None \<Rightarrow> r)
      else r)"
  by (simp add: on_message_def startsWith_def substring_from_def lit_data_length Let_def)

lemma on_message_buffer:
  "on_message p f m (r\<lparr>buffer := b\<rparr>) = (on_message p f m r)\<lparr>buffer := b\<rparr>"
  by (simp add: on_message_cases split: option.split)

lemma fold_on_message_buffer:
  "fold (on_message p f) ms (r\<lparr>buffer := b\<rparr>) = (fold (on_message p f) ms r)\<lparr>buffer := b\<rparr>"
  by (induction ms arbitrary: r) (simp_all add: on_message_buffer)

lemma fold_on_message:
  "fold (on_message p f) ms r =
     r\<lparr>lastEventData := last_record (lastEventData r) (parsed_records p ms),
       outer := fold f (accepted_bodies p ms) (outer r)\<rparr>"
proof (induction ms arbitrary: r)
  case Nil
  then show ?case
    by (simp add: last_record_def parsed_records_def accepted_bodies_def data_bodies_def
        map_filter_simps)
next
  case (Cons m ms)
  show ?case
  proof (cases "take 6 m = lit ''data: ''")
    case False
    then have "on_message p f m r = r" by (simp add: on_message_cases)
    moreover from False have "parsed_records p (m # ms) = parsed_records p ms"
      and "accepted_bodies p (m # ms) = accepted_bodies p ms"
      by (simp_all add: parsed_records_def accepted_bodies_def data_bodies_def)
    ultimately show ?thesis using Cons.IH [of r] by simp
  next
    case True
    show ?thesis
    proof (cases "p (drop 6 m)")
      case None
      with True have "on_message p f m r = r" by (simp add: on_message_cases)
      moreover from True None have "parsed_records p (m # ms) = parsed_records p ms"
        and "accepted_bodies p (m # ms) = accepted_bodies p ms"
        by (simp_all add: parsed_records_def accepted_bodies_def data_bodies_def
            map_filter_simps)
      ultimately show ?thesis using Cons.IH [of r] by simp
    next
      case (Some d)
      let ?r1 = "r\<lparr>lastEventData := Some d, outer := f (drop 6 m) (outer r)\<rparr>"
      from True Some have step: "on_message p f m r = ?r1"
        by (simp add: on_message_cases)
      from True Some have recs: "parsed_records p (m # ms) = d # parsed_records p ms"
        and acc: "accepted_bodies p (m # ms) = drop 6 m # accepted_bodies p ms"
        by (simp_all add: parsed_records_def accepted_bodies_def data_bodies_def
            map_filter_simps)
      have "last_record (Some d) (parsed_records p ms) =
          last_record (lastEventData r) (d # parsed_records p ms)"
        by (simp add: last_record_def)
      then show ?thesis
        using Cons.IH [of ?r1] by (simp add: step recs acc)
    qed
  qed
qed

lemma response_on_data_eq:
  "response_on_data dec p f chunk r =
     (fold (on_message p f) (complete_frames (buffer r @ dec chunk)) r)
       \<lparr>buffer := pending_segment (buffer r @ dec chunk)\<rparr>"
  using js_split_not_Nil [OF lit_nn_not_Nil, of "buffer r @ dec chunk"]
  by (simp add: response_on_data_def pop_def or_empty_def complete_frames_def
      pending_segment_def fold_on_message_buffer Let_def)

lemma fold_response_on_data:
  "js_split (buffer r) (lit ''\<newline>\<newline>'') = [buffer r] \<Longrightarrow>
   fold (response_on_data dec p f) cs r =
     (fold (on_message p f) (complete_frames (buffer r @ concat (map dec cs))) r)
       \<lparr>buffer := pending_segment (buffer r @ concat (map dec cs))\<rparr>"
proof (induction cs arbitrary: r)
  case Nil
  then show ?case by (simp add: complete_frames_def pending_segment_def)
next
  case (Cons c cs)
  let ?nn = "lit ''\<newline>\<newline>''"
  let ?P = "on_message p f"
  let ?t1 = "buffer r @ dec c"
  let ?rest = "concat (map dec cs)"
  let ?r1 = "response_on_data dec p f c r"
  have r1: "?r1 = (fold ?P (complete_frames ?t1) r)\<lparr>buffer := pending_segment ?t1\<rparr>"
    by (rule response_on_data_eq)
  then have b1: "buffer ?r1 = pending_segment ?t1" by simp
  have clean: "js_split (buffer ?r1) ?nn = [buffer ?r1]"
    unfolding b1 pending_segment_def by (rule js_split_last [OF lit_nn_not_Nil])
  have split: "js_split (?t1 @ ?rest) ?nn =
      complete_frames ?t1 @ js_split (pending_segment ?t1 @ ?rest) ?nn"
    unfolding complete_frames_def pending_segment_def
    by (rule js_split_append [OF lit_nn_not_Nil])
  have ne: "js_split (pending_segment ?t1 @ ?rest) ?nn \<noteq> []"
    by (rule js_split_not_Nil [OF lit_nn_not_Nil])
  have frames: "complete_frames (?t1 @ ?rest) =
      complete_frames ?t1 @ complete_frames (pending_segment ?t1 @ ?rest)"
    using split ne by (simp add: complete_frames_def butlast_append)
  have pending: "pending_segment (?t1 @ ?rest) = pending_segment (pending_segment ?t1 @ ?rest)"
    using split ne by (simp add: pending_segment_def)
  have "fold (response_on_data dec p f) (c # cs) r = fold (response_on_data dec p f) cs ?r1"
    by simp
  also have "\<dots> = (fold ?P (complete_frames (buffer ?r1 @ ?rest)) ?r1)
      \<lparr>buffer := pending_segment (buffer ?r1 @ ?rest)\<rparr>"
    by (rule Cons.IH [OF clean])
  also have "\<dots> = (fold ?P (complete_frames (?t1 @ ?rest)) r)
      \<lparr>buffer := pending_segment (?t1 @ ?rest)\<rparr>"
    unfolding b1 frames pending by (simp add: r1 fold_on_message_buffer)
  finally show ?case by simp
qed

text \<open>
  What a call of \<open>streamSSE\<close> comes to: the complete frames of the whole text received
  are handled in order, wherever the chunks were cut.
\<close>

lemma streamSSE_text:
  "streamSSE dec p http url data f s =
     (fold f (accepted_bodies p (complete_frames (concat (map dec (chunks (http url data)))))) s,
      case failure (http url data) of
        None \<Rightarrow>
          Inr (last_record None
                (parsed_records p (complete_frames (concat (map dec (chunks (http url data)))))))
      | Some e \<Rightarrow> Inl e)"
proof -
  let ?r0 = "\<lparr>buffer = [], lastEventData = None, outer = s\<rparr>"
  let ?text = "concat (map dec (chunks (http url data)))"
  have "js_split (buffer ?r0) (lit ''\<newline>\<newline>'') = [buffer ?r0]"
    by (subst js_split.simps) (simp add: lit_def)
  from fold_response_on_data [OF this, of dec p f "chunks (http url data)"]
  have "fold (response_on_data dec p f) (chunks (http url data)) ?r0 =
      (fold (on_message p f) (complete_frames ?text) ?r0)\<lparr>buffer := pending_segment ?text\<rparr>"
    by simp
  then show ?thesis
    unfolding streamSSE_def Let_def by (simp add: fold_on_message split: option.split)
qed

text \<open>
  Two ways of cutting a stream into chunks give the same result whenever decoding the
  chunks one by one gives the same text, as it does when the stream is ASCII or no cut
  falls inside a character.
\<close>

lemma streamSSE_same_text:
  assumes "concat (map dec (chunks (http1 url data))) = concat (map dec (chunks (http2 url data)))"
    and "failure (http1 url data) = failure (http2 url data)"
  shows "streamSSE dec p http1 url data f s = streamSSE dec p http2 url data f s"
  by (simp only: streamSSE_text assms)

text \<open>
  C5. On each chunk the callback appends the decoded chunk to the buffer and splits the
  buffer at the empty line: the segments joined by the delimiter are the text again,
  none of them holds the delimiter, and there is at least one. The last segment stays
  in the buffer; of the others, those that begin with \<open>data: \<close> have the marker
  stripped and the rest parsed, \<open>onData\<close> gets the bodies that parse, in order, the last
  record parsed is kept, and segments without the marker are passed over.
\<close>

theorem response_on_data_design:
  "let text = buffer r @ toString chunk;
       segments = js_split text (lit ''\<newline>\<newline>'');
       r' = response_on_data toString JSON_parse onData chunk r
   in segments \<noteq> []
      \<and> join_with (lit ''\<newline>\<newline>'') segments = text
      \<and> list_all (\<lambda>seg. indexOf seg (lit ''\<newline>\<newline>'') = None) segments
      \<and> buffer r' = last segments
      \<and> outer r' = fold onData (accepted_bodies JSON_parse (butlast segments)) (outer r)
      \<and> lastEventData r' =
          last_record (lastEventData r) (parsed_records JSON_parse (butlast segments))"
proof -
  let ?nn = "lit ''\<newline>\<newline>''"
  let ?text = "buffer r @ toString chunk"
  have "js_split ?text ?nn \<noteq> []"
    by (rule js_split_not_Nil [OF lit_nn_not_Nil])
  moreover have "join_with ?nn (js_split ?text ?nn) = ?text"
    by (rule join_js_split [OF lit_nn_not_Nil])
  moreover have "list_all (\<lambda>seg. indexOf seg ?nn = None) (js_split ?text ?nn)"
    by (rule js_split_segments [OF lit_nn_not_Nil])
  moreover have "response_on_data toString JSON_parse onData chunk r =
      r\<lparr>lastEventData :=
          last_record (lastEventData r) (parsed_records JSON_parse (butlast (js_split ?text ?nn))),
        outer := fold onData (accepted_bodies JSON_parse (butlast (js_split ?text ?nn))) (outer r),
        buffer := last (js_split ?text ?nn)\<rparr>"
    by (simp add: response_on_data_eq fold_on_message complete_frames_def pending_segment_def)
  ultimately show ?thesis by (simp add: Let_def)
qed

theorem response_on_data_design_witness:
  "response_on_data utf8_toString parse_numbers collect
     (ascii ''ta: 1\<newline>\<newline>noise\<newline>\<newline>data: 2\<newline>\<newline>data: '')
     \<lparr>buffer = lit ''da'', lastEventData = None, outer = []\<rparr> =
   \<lparr>buffer = lit ''data: '', lastEventData = Some (JNum 2), outer = [lit ''1'', lit ''2'']\<rparr>"
proof -
  let ?r = "\<lparr>buffer = lit ''da'', lastEventData = None, outer = []\<rparr> :: jsstring list relay"
  let ?chunk = "ascii ''ta: 1\<newline>\<newline>noise\<newline>\<newline>data: 2\<newline>\<newline>data: ''"
  let ?r' = "response_on_data utf8_toString parse_numbers collect ?chunk ?r"
  have decoded: "buffer ?r @ utf8_toString ?chunk =
      lit ''data: 1\<newline>\<newline>noise\<newline>\<newline>data: 2\<newline>\<newline>data: ''"
    by (simp add: utf8_toString_def utf8_lead_def utf16_units_def ascii_def lit_def)
  have segments: "js_split (lit ''data: 1\<newline>\<newline>noise\<newline>\<newline>data: 2\<newline>\<newline>data: '')
      (lit ''\<newline>\<newline>'') = [lit ''data: 1'', lit ''noise'', lit ''data: 2'', lit ''data: '']"
    by (simp add: js_split.simps startsWith_def lit_def)
  let ?segments = "js_split (buffer ?r @ utf8_toString ?chunk) (lit ''\<newline>\<newline>'')"
  from response_on_data_design [of ?r utf8_toString ?chunk parse_numbers collect]
  have "buffer ?r' = last ?segments"
    and "outer ?r' = fold collect (accepted_bodies parse_numbers (butlast ?segments)) (outer ?r)"
    and "lastEventData ?r' =
      last_record (lastEventData ?r) (parsed_records parse_numbers (butlast ?segments))"
    unfolding Let_def by blast+
  then have "buffer ?r' = lit ''data: ''"
    and "outer ?r' = [lit ''1'', lit ''2'']"
    and "lastEventData ?r' = Some (JNum 2)"
    unfolding decoded segments
    by (simp_all add: accepted_bodies_def parsed_records_def data_bodies_def last_record_def
        parse_numbers_def collect_def map_filter_simps lit_def)
  then show ?thesis by (cases ?r') simp
qed

text \<open>
  C6. When the stream ends, the call resolves with the last record parsed from a
  \<open>data: \<close> frame among the complete frames of the stream (with \<open>null\<close>, the initial
  value, when there was none).
\<close>

theorem streamSSE_resolves_with_last_record:
  "failure (http url data) = None \<Longrightarrow>
   snd (streamSSE toString JSON_parse http url data onData s) =
     Inr (last_record None
           (parsed_records JSON_parse
             (complete_frames (concat (map toString (chunks (http url data)))))))"
  by (simp add: streamSSE_text)

theorem streamSSE_resolves_with_last_record_witness:
  "failure (answering \<lparr>chunks = [ascii ''data: 1\<newline>'', ascii ''\<newline>data: 2\<newline>\<newline>da''],
                       failure = None\<rparr> (lit ''http://pull/api/pull'') JNull) = None \<and>
   snd (streamSSE utf8_toString parse_numbers
         (answering \<lparr>chunks = [ascii ''data: 1\<newline>'', ascii ''\<newline>data: 2\<newline>\<newline>da''],
                     failure = None\<rparr>)
         (lit ''http://pull/api/pull'') JNull collect []) = Inr (Some (JNum 2))"
proof -
  let ?http = "answering \<lparr>chunks = [ascii ''data: 1\<newline>'', ascii ''\<newline>data: 2\<newline>\<newline>da''],
      failure = None\<rparr>"
  let ?url = "lit ''http://pull/api/pull''"
  have ends: "failure (?http ?url JNull) = None"
    by (simp add: answering_def)
  have decoded: "concat (map utf8_toString (chunks (?http ?url JNull))) =
      lit ''data: 1\<newline>\<newline>data: 2\<newline>\<newline>da''"
    by (simp add: answering_def utf8_toString_def utf8_lead_def utf16_units_def ascii_def
        lit_def)
  have frames: "complete_frames (lit ''data: 1\<newline>\<newline>data: 2\<newline>\<newline>da'') =
      [lit ''data: 1'', lit ''data: 2'']"
    by (simp add: complete_frames_def js_split.simps startsWith_def lit_def)
  have "parsed_records parse_numbers [lit ''data: 1'', lit ''data: 2''] = [JNum 1, JNum 2]"
    by (simp add: parsed_records_def data_bodies_def parse_numbers_def map_filter_simps
        lit_def)
  moreover have "snd (streamSSE utf8_toString parse_numbers ?http ?url JNull collect []) =
      Inr (last_record None (parsed_records parse_numbers
        (complete_frames (concat (map utf8_toString (chunks (?http ?url JNull)))))))"
    using ends by (rule streamSSE_resolves_with_last_record)
  ultimately show ?thesis
    unfolding decoded frames by (simp add: ends last_record_def)
qed

text \<open>
  C1 fails where a cut falls inside a character. The stream is one frame: the marker
  \<open>data: \<close>, the JSON text of a string of one accented letter, whose letter takes
  the two bytes C3 A9, and an empty line. Received in one chunk, the frame yields the
  text of that string. Cut between the two bytes, each half is decoded on its own, both
  bytes become U+FFFD, and the frame yields another text and another record.
\<close>

theorem streamSSE_cut_inside_character:
  "take 8 accented_frame @ drop 8 accented_frame = accented_frame \<and>
   streamSSE utf8_toString parse_strings
     (answering \<lparr>chunks = [accented_frame], failure = None\<rparr>)
     (lit ''http://pull/api/pull'') JNull collect [] =
     ([accented_text], Inr (Some (JStr [0xE9]))) \<and>
   streamSSE utf8_toString parse_strings
     (answering \<lparr>chunks = [take 8 accented_frame, drop 8 accented_frame], failure = None\<rparr>)
     (lit ''http://pull/api/pull'') JNull collect [] =
     ([replaced_text], Inr (Some (JStr [0xFFFD, 0xFFFD])))"
proof -
  have whole: "utf8_toString accented_frame = lit ''data: \"'' @ [0xE9] @ lit ''\"\<newline>\<newline>''"
    by (simp add: accented_frame_def utf8_toString_def utf8_lead_def utf16_units_def ascii_def
        lit_def)
  have left: "utf8_toString (take 8 accented_frame) = lit ''data: \"'' @ [0xFFFD]"
    by (simp add: accented_frame_def utf8_toString_def utf8_lead_def utf16_units_def ascii_def
        lit_def)
  have right: "utf8_toString (drop 8 accented_frame) = [0xFFFD] @ lit ''\"\<newline>\<newline>''"
    by (simp add: accented_frame_def utf8_toString_def utf8_lead_def utf16_units_def ascii_def
        lit_def)
  show ?thesis
    by (simp add: streamSSE_def answering_def response_on_data_def whole left right
        js_split.simps startsWith_def pop_def or_empty_def on_message_def substring_from_def
        parse_strings_def accented_text_def replaced_text_def collect_def lit_def Let_def)
qed

lemma accepted_bodies_without:
  assumes "startsWith m (lit ''data: '')" and "p (substring_from m 6) = None"
  shows "accepted_bodies p (before @ m # after) = accepted_bodies p (before @ after)"
    and "parsed_records p (before @ m # after) = parsed_records p (before @ after)"
  using assms
  by (simp_all add: accepted_bodies_def parsed_records_def data_bodies_def startsWith_def
      substring_from_def lit_data_length List.map_filter_def)

text \<open>
  C4, as the code has it. A complete frame that begins with \<open>data: \<close> and whose body
  does not parse changes nothing: no call of \<open>onData\<close>, \<open>lastEventData\<close> as it was, and
  nothing else either, so nothing is logged (the \<open>catch\<close> is empty). The frames before
  it and after it are handled as if it were absent, and the promise is settled as the
  stream settles it.
\<close>

theorem malformed_frame_dropped:
  assumes "complete_frames (concat (map toString (chunks (http url data)))) = before @ m # after"
    and "startsWith m (lit ''data: '')"
    and "JSON_parse (substring_from m 6) = None"
  shows "on_message JSON_parse onData m r = r \<and>
    streamSSE toString JSON_parse http url data onData s =
      (fold onData (accepted_bodies JSON_parse (before @ after)) s,
       case failure (http url data) of
         None \<Rightarrow> Inr (last_record None (parsed_records JSON_parse (before @ after)))
       | Some e \<Rightarrow> Inl e)"
proof
  from assms(2,3) show "on_message JSON_parse onData m r = r"
    by (simp add: on_message_def Let_def)
next
  show "streamSSE toString JSON_parse http url data onData s =
      (fold onData (accepted_bodies JSON_parse (before @ after)) s,
       case failure (http url data) of
         None \<Rightarrow> Inr (last_record None (parsed_records JSON_parse (before @ after)))
       | Some e \<Rightarrow> Inl e)"
    unfolding streamSSE_text assms(1)
      accepted_bodies_without [where p = JSON_parse and m = m, OF assms(2,3)] ..
qed

theorem malformed_frame_dropped_witness:
  "complete_frames (concat (map utf8_toString
      (chunks (answering broken_stream (lit ''http://pull/api/pull'') JNull)))) =
     [lit ''data: 1''] @ lit ''data: {bad'' # [lit ''data: 2''] \<and>
   startsWith (lit ''data: {bad'') (lit ''data: '') \<and>
   parse_numbers (substring_from (lit ''data: {bad'') 6) = None \<and>
   streamSSE utf8_toString parse_numbers (answering broken_stream)
     (lit ''http://pull/api/pull'') JNull collect [] =
     ([lit ''1'', lit ''2''], Inr (Some (JNum 2)))"
proof -
  let ?http = "answering broken_stream"
  let ?url = "lit ''http://pull/api/pull''"
  have decoded: "concat (map utf8_toString (chunks (?http ?url JNull))) =
      lit ''data: 1\<newline>\<newline>data: {bad\<newline>\<newline>data: 2\<newline>\<newline>''"
    by (simp add: answering_def broken_stream_def utf8_toString_def utf8_lead_def
        utf16_units_def ascii_def lit_def)
  have h1: "complete_frames (concat (map utf8_toString (chunks (?http ?url JNull)))) =
      [lit ''data: 1''] @ lit ''data: {bad'' # [lit ''data: 2'']"
    unfolding decoded
    by (simp add: complete_frames_def js_split.simps startsWith_def lit_def)
  have h2: "startsWith (lit ''data: {bad'') (lit ''data: '')"
    by (simp add: startsWith_def lit_def)
  have h3: "parse_numbers (substring_from (lit ''data: {bad'') 6) = None"
    by (simp add: parse_numbers_def substring_from_def lit_def)
  have "failure (?http ?url JNull) = None"
    by (simp add: answering_def broken_stream_def)
  moreover have "accepted_bodies parse_numbers ([lit ''data: 1''] @ [lit ''data: 2'']) =
      [lit ''1'', lit ''2'']"
    and "parsed_records parse_numbers ([lit ''data: 1''] @ [lit ''data: 2'']) = [JNum 1, JNum 2]"
    by (simp_all add: accepted_bodies_def parsed_records_def data_bodies_def parse_numbers_def
        map_filter_simps lit_def)
  ultimately have "streamSSE utf8_toString parse_numbers ?http ?url JNull collect [] =
      ([lit ''1'', lit ''2''], Inr (Some (JNum 2)))"
    using malformed_frame_dropped [where toString = utf8_toString and http = ?http
        and url = ?url and data = JNull and JSON_parse = parse_numbers
        and before = "[lit ''data: 1'']" and m = "lit ''data: {bad''"
        and after = "[lit ''data: 2'']" and onData = collect and s = "[]", OF h1 h2 h3]
    by (simp add: collect_def last_record_def)
  with h1 h2 h3 show ?thesis by blast
qed

text \<open>
  C4 as stated says that the frame dropped is logged. It is not: in a whole workflow
  whose pull stream holds such a frame, the only line on the console is the one the
  handler writes at the end, and the frames around the broken one are forwarded.
\<close>

theorem malformed_frame_not_logged:
  "console (fst (post_workflow utf8_toString parse_numbers
      (services example_config broken_stream empty_stream)
      example_config (lit ''w1'') example_body idle_process)) =
     [Console_log (lit ''Workflow completed successfully. Exiting process...'')] \<and>
   written (snd (post_workflow utf8_toString parse_numbers
      (services example_config broken_stream empty_stream)
      example_config (lit ''w1'') example_body idle_process)) =
     [Workflow_started_pull (lit ''w1'') (Some (JStr (lit ''fix''))) (Some (JStr (lit ''repo''))),
      Message_pulling (Some (JStr (lit ''repo''))),
      Pull_progress (JNum 1),
      Pull_progress (JNum 2),
      Workflow_step_complete (JStr []),
      Workflow_started_execute (lit ''w1'') (Some (JStr (lit ''fix''))) (JStr []),
      Message_executing (JStr []),
      Workflow_complete (lit ''w1'')]"
proof -
  let ?http = "services example_config broken_stream empty_stream"
  have pull: "?http (pullUrl example_config) (pull_payload example_body) = broken_stream"
    by (simp add: services_def)
  have execute: "?http (executeUrl example_config) d = empty_stream" for d
    by (simp add: services_def executeUrl_def pullUrl_def example_config_def lit_def)
  have decoded: "concat (map utf8_toString (chunks broken_stream)) =
      lit ''data: 1\<newline>\<newline>data: {bad\<newline>\<newline>data: 2\<newline>\<newline>''"
    by (simp add: broken_stream_def utf8_toString_def utf8_lead_def
        utf16_units_def ascii_def lit_def)
  have frames: "complete_frames (lit ''data: 1\<newline>\<newline>data: {bad\<newline>\<newline>data: 2\<newline>\<newline>'') =
      [lit ''data: 1'', lit ''data: {bad'', lit ''data: 2'']"
    by (simp add: complete_frames_def js_split.simps startsWith_def lit_def)
  have bodies: "accepted_bodies parse_numbers [lit ''data: 1'', lit ''data: {bad'', lit ''data: 2''] =
      [lit ''1'', lit ''2'']"
    by (simp add: accepted_bodies_def data_bodies_def parse_numbers_def lit_def)
  have pulled: "pull_step utf8_toString parse_numbers ?http example_config example_body f =
      (f\<lparr>res := res_write (Pull_progress (JNum 2)) (res_write (Pull_progress (JNum 1)) (res f))\<rparr>,
       Inr (Some (JNum 2)))" for f
    unfolding pull_step_def streamSSE_text pull decoded frames bodies
    by (simp add: pull_onData_def parse_numbers_def broken_stream_def parsed_records_def
        data_bodies_def map_filter_simps last_record_def lit_def)
  have executed: "streamSSE utf8_toString parse_numbers ?http (executeUrl example_config) d
      execute_onData f = (f, Inr None)" for d f
    unfolding streamSSE_text execute
    by (simp add: empty_stream_def complete_frames_def js_split.simps accepted_bodies_def
        parsed_records_def data_bodies_def map_filter_simps last_record_def lit_def)
  have fields: "prompt example_body = Some (JStr (lit ''fix''))"
    "repoUrl example_body = Some (JStr (lit ''repo''))"
    by (simp_all add: example_body_def)
  have nonempty: "lit ''fix'' \<noteq> []" "lit ''repo'' \<noteq> []"
    by (simp_all add: lit_def)
  show ?thesis
    by (simp add: post_workflow_def workflow_begin_def fields nonempty pulled execute_step_def
        executed workflow_done_def idle_process_def res_write_def res_end_def
        res_setHeader_def new_response_def Let_def)
qed

section \<open>The endpoints\<close>

text \<open>
  C7, as the code has it. The status probe answers with status 200 whatever the flag
  is; the flag is in the body of the answer.
\<close>

theorem get_status_always_200:
  "statusCode (get_status g) = 200 \<and> json_sent (get_status g) = Some (Status_reply (serverStatus g))"
  by (simp add: get_status_def res_json_def new_response_def)

text \<open>C7 as stated asks for 429 from a busy worker; a busy worker answers 200.\<close>

theorem get_status_busy_not_429:
  "serverStatus busy_process = Busy \<and> statusCode (get_status busy_process) = 200 \<and>
   statusCode (get_status busy_process) \<noteq> 429"
  by (simp add: get_status_def res_json_def new_response_def busy_process_def)

text \<open>
  C9. A request without \<open>prompt\<close> or without \<open>repoUrl\<close> is answered with status 400
  and the validation message; the process is left as it was (the flag, the console, the
  POSTs issued), and no event is written.
\<close>

theorem missing_field_refused:
  "prompt b = None \<or> repoUrl b = None \<Longrightarrow>
   post_workflow toString JSON_parse http cfg workflowId b g =
     (g, \<lparr>statusCode = 400, headers = [],
          json_sent = Some (Error_reply (lit ''prompt and repoUrl are required'')),
          written = [], ended = True\<rparr>)"
  by (auto simp add: post_workflow_def workflow_begin_def res_json_def res_status_def
      new_response_def)

theorem missing_field_refused_witness:
  "(prompt body_without_prompt = None \<or> repoUrl body_without_prompt = None) \<and>
   post_workflow utf8_toString parse_numbers (answering empty_stream) example_config
     (lit ''w1'') body_without_prompt idle_process =
     (idle_process, \<lparr>statusCode = 400, headers = [],
          json_sent = Some (Error_reply (lit ''prompt and repoUrl are required'')),
          written = [], ended = True\<rparr>)"
proof -
  have missing: "prompt body_without_prompt = None \<or> repoUrl body_without_prompt = None"
    by (simp add: body_without_prompt_def)
  from missing missing_field_refused [OF missing] show ?thesis by blast
qed

section \<open>Commit messages and query options\<close>

text \<open>
  C8. Whatever the client does, the method returns a string and raises nothing; when the
  call to the client raises (a timeout included), and also when the \<open>try\<close> block raises
  after it, the string is the fallback.
\<close>

theorem generateCommitMessage_never_raises:
  "(\<exists>commitMessage. snd (generateCommitMessage messages_create gitStatus gitDiff) = Inr commitMessage) \<and>
   (\<forall>error. messages_create (commit_request gitStatus gitDiff) = Inl error \<longrightarrow>
      snd (generateCommitMessage messages_create gitStatus gitDiff) =
        Inr (lit ''chore: auto-commit changes'')) \<and>
   (\<forall>error. snd (generateCommitMessage_try messages_create gitStatus gitDiff) = Inl error \<longrightarrow>
      snd (generateCommitMessage messages_create gitStatus gitDiff) =
        Inr (lit ''chore: auto-commit changes''))"
  by (auto simp add: generateCommitMessage_def generateCommitMessage_try_def commit_request_def
      Let_def split: sum.splits list.splits content_block.splits prod.splits)

theorem generateCommitMessage_never_raises_witness:
  "timed_out (commit_request (lit ''M a.ts'') (lit ''+x'')) = Inl (Error (lit ''Request timed out.'')) \<and>
   snd (generateCommitMessage timed_out (lit ''M a.ts'') (lit ''+x'')) =
     Inr (lit ''chore: auto-commit changes'')"
proof -
  have raised: "timed_out (commit_request (lit ''M a.ts'') (lit ''+x'')) =
      Inl (Error (lit ''Request timed out.''))"
    by (simp add: timed_out_def)
  with generateCommitMessage_never_raises [of timed_out "lit ''M a.ts''" "lit ''+x''"]
  show ?thesis by blast
qed

text \<open>
  C10. When \<open>skipPermissions\<close> is not set (no provider options, or options without
  it), the query runs with \<open>bypassPermissions\<close> and with
  \<open>allowDangerouslySkipPermissions\<close>; the mode is \<open>default\<close> exactly when
  \<open>skipPermissions\<close> is set to \<open>false\<close>.
\<close>

theorem createQueryOptions_permissions:
  "let requested = (case providerOptions options of None \<Rightarrow> None | Some p \<Rightarrow> skipPermissions p);
       q = createQueryOptions this options
   in (requested = None \<longrightarrow>
         permissionMode q = BypassPermissions \<and> allowDangerouslySkipPermissions q) \<and>
      (permissionMode q = DefaultPermissions \<longleftrightarrow> requested = Some False) \<and>
      (allowDangerouslySkipPermissions q \<longleftrightarrow> permissionMode q = BypassPermissions)"
  by (auto simp add: createQueryOptions_def nullish_else_def Let_def
      split: option.splits)

theorem createQueryOptions_permissions_witness:
  "permissionMode (createQueryOptions example_provider
      \<lparr>resumeSessionId = None, providerOptions = None\<rparr>) = BypassPermissions \<and>
   allowDangerouslySkipPermissions (createQueryOptions example_provider
      \<lparr>resumeSessionId = None, providerOptions = None\<rparr>) \<and>
   permissionMode (createQueryOptions example_provider
      \<lparr>resumeSessionId = None,
       providerOptions = Some \<lparr>model = None, skipPermissions = Some False\<rparr>\<rparr>) = DefaultPermissions"
  using createQueryOptions_permissions
      [of "\<lparr>resumeSessionId = None, providerOptions = None\<rparr>" example_provider]
    createQueryOptions_permissions
      [of "\<lparr>resumeSessionId = None,
            providerOptions = Some \<lparr>model = None, skipPermissions = Some False\<rparr>\<rparr>" example_provider]
  by (simp add: Let_def)

section \<open>The workflow handler\<close>

lemma pull_onData_eq:
  "pull_onData p d f =
     \<lparr>res = (res f)\<lparr>written := written (res f) @ map Pull_progress (List.map_filter p [d])\<rparr>,
      targetPath = next_path p d (targetPath f)\<rparr>"
  by (cases f)
    (simp add: pull_onData_def next_path_def res_write_def map_filter_simps Let_def
      split: option.split sum.split)

lemma fold_pull_onData:
  "fold (pull_onData p) ds f =
     \<lparr>res = (res f)\<lparr>written := written (res f) @ map Pull_progress (List.map_filter p ds)\<rparr>,
      targetPath = fold (next_path p) ds (targetPath f)\<rparr>"
proof (induction ds arbitrary: f)
  case Nil
  then show ?case by (cases f) (simp add: map_filter_simps)
next
  case (Cons d ds)
  have "fold (pull_onData p) (d # ds) f = fold (pull_onData p) ds (pull_onData p d f)"
    by simp
  also have "\<dots> =
      \<lparr>res = (res (pull_onData p d f))\<lparr>written := written (res (pull_onData p d f)) @
         map Pull_progress (List.map_filter p ds)\<rparr>,
       targetPath = fold (next_path p) ds (targetPath (pull_onData p d f))\<rparr>"
    by (rule Cons.IH)
  also have "\<dots> =
      \<lparr>res = (res f)\<lparr>written := written (res f) @
         map Pull_progress (List.map_filter p (d # ds))\<rparr>,
       targetPath = fold (next_path p) (d # ds) (targetPath f)\<rparr>"
    by (simp add: pull_onData_eq map_filter_simps split: option.split)
  finally show ?case .
qed

lemma fold_execute_onData:
  "fold execute_onData ds f = f\<lparr>res := (res f)\<lparr>written := written (res f) @ map Raw ds\<rparr>\<rparr>"
proof (induction ds arbitrary: f)
  case Nil
  then show ?case by (cases f) simp
next
  case (Cons d ds)
  have "fold execute_onData (d # ds) f = fold execute_onData ds (execute_onData d f)"
    by simp
  also have "\<dots> = (execute_onData d f)\<lparr>res := (res (execute_onData d f))
      \<lparr>written := written (res (execute_onData d f)) @ map Raw ds\<rparr>\<rparr>"
    by (rule Cons.IH)
  also have "\<dots> = f\<lparr>res := (res f)\<lparr>written := written (res f) @ map Raw (d # ds)\<rparr>\<rparr>"
    by (simp add: execute_onData_def res_write_def)
  finally show ?case .
qed

lemma pull_step_eq:
  "pull_step dec p http cfg b f =
     (\<lparr>res = (res f)\<lparr>written := written (res f) @ map Pull_progress (List.map_filter p
         (accepted_bodies p (complete_frames
           (concat (map dec (chunks (http (pullUrl cfg) (pull_payload b))))))))\<rparr>,
       targetPath = fold (next_path p)
         (accepted_bodies p (complete_frames
           (concat (map dec (chunks (http (pullUrl cfg) (pull_payload b)))))))
         (targetPath f)\<rparr>,
      case failure (http (pullUrl cfg) (pull_payload b)) of
        None \<Rightarrow> Inr (last_record None (parsed_records p (complete_frames
          (concat (map dec (chunks (http (pullUrl cfg) (pull_payload b))))))))
      | Some e \<Rightarrow> Inl e)"
  by (simp add: pull_step_def streamSSE_text fold_pull_onData)

lemma list_all_not_terminal_Pull_progress: "list_all (\<lambda>ev. \<not> terminal ev) (map Pull_progress vs)"
  by (induction vs) simp_all

lemma list_all_not_terminal_Raw: "list_all (\<lambda>ev. \<not> terminal ev) (map Raw ds)"
  by (induction ds) simp_all

lemma list_all_not_execution_Pull_progress:
  "list_all (\<lambda>ev. \<not> execution_event ev) (map Pull_progress vs)"
  by (induction vs) simp_all

lemma failing_stream_frames:
  "complete_frames (concat (map utf8_toString (chunks failing_stream))) = [lit ''data: 1'']"
proof -
  have "concat (map utf8_toString (chunks failing_stream)) = lit ''data: 1\<newline>\<newline>''"
    by (simp add: failing_stream_def utf8_toString_def utf8_lead_def utf16_units_def ascii_def
        lit_def)
  then show ?thesis
    by (simp add: complete_frames_def js_split.simps startsWith_def lit_def)
qed

lemma example_body_truthy: "truthy (prompt example_body)" "truthy (repoUrl example_body)"
  by (simp_all add: example_body_def lit_def)

lemma example_urls_differ: "executeUrl example_config \<noteq> pullUrl example_config"
  by (simp add: executeUrl_def pullUrl_def example_config_def lit_def)

text \<open>
  C2, as the code has it. The handler never reads the flag. A request with \<open>prompt\<close>
  and \<open>repoUrl\<close> is accepted whatever the flag is, also while busy: in the one step
  that runs up to the first \<open>await\<close> the flag is set to busy, the stream is opened with
  status 200 and its first two events, and the pull request is sent. A request without
  them is refused with status 400 and leaves the process as it was. Nothing is queued
  and no request gets a capacity status. The responses of the other connections, the
  stream of a job already running among them, are not touched.
\<close>

theorem workflow_arrives_whatever_the_flag:
  "let srv' = workflow_arrives cfg c workflowId b srv in
     (truthy (prompt b) \<and> truthy (repoUrl b) \<longrightarrow>
        serverStatus (proc srv') = Busy \<and>
        posted (proc srv') = posted (proc srv) @ [(pullUrl cfg, pull_payload b)] \<and>
        (\<exists>r. connections srv' c = Some r \<and> statusCode r = 200 \<and> json_sent r = None \<and>
             \<not> ended r \<and>
             written r = [Workflow_started_pull workflowId (prompt b) (repoUrl b),
                          Message_pulling (repoUrl b)])) \<and>
     (\<not> (truthy (prompt b) \<and> truthy (repoUrl b)) \<longrightarrow>
        proc srv' = proc srv \<and>
        (\<exists>r. connections srv' c = Some r \<and> statusCode r = 400 \<and> written r = [] \<and> ended r)) \<and>
     (\<forall>c'. c' \<noteq> c \<longrightarrow> connections srv' c' = connections srv c')"
  by (auto simp add: workflow_arrives_def workflow_begin_def Let_def res_write_def
      res_setHeader_def res_json_def res_status_def new_response_def)

theorem workflow_arrives_whatever_the_flag_witness:
  "truthy (prompt example_body) \<and> truthy (repoUrl example_body) \<and>
   serverStatus (proc (workflow_arrives example_config 1 (lit ''w1'') example_body busy_server)) = Busy \<and>
   posted (proc (workflow_arrives example_config 1 (lit ''w1'') example_body busy_server)) =
     posted busy_process @ [(pullUrl example_config, pull_payload example_body)] \<and>
   connections (workflow_arrives example_config 1 (lit ''w1'') example_body busy_server) 0 =
     Some first_job_response"
  using workflow_arrives_whatever_the_flag
      [of example_config 1 "lit ''w1''" example_body busy_server]
  by (simp add: Let_def example_body_def busy_server_def lit_def)

text \<open>
  C2 as stated has a request that arrives while the flag is busy rejected with a
  capacity status. Here the flag is busy and a first job streams on connection 0; the
  request on connection 1 is accepted: its stream opens with status 200 and the first
  two events.
\<close>

theorem second_job_accepted_while_busy:
  "serverStatus (proc busy_server) = Busy \<and>
   connections (workflow_arrives example_config 1 (lit ''w1'') example_body busy_server) 1 =
     Some \<lparr>statusCode = 200,
           headers = [(''Content-Type'', ''text/event-stream''), (''Cache-Control'', ''no-cache''),
                      (''Connection'', ''keep-alive''), (''X-Accel-Buffering'', ''no'')],
           json_sent = None,
           written = [Workflow_started_pull (lit ''w1'') (Some (JStr (lit ''fix'')))
                        (Some (JStr (lit ''repo''))),
                      Message_pulling (Some (JStr (lit ''repo'')))],
           ended = False\<rparr>"
proof -
  have nonempty: "lit ''fix'' \<noteq> []" "lit ''repo'' \<noteq> []"
    by (simp_all add: lit_def)
  show ?thesis
    by (simp add: workflow_arrives_def workflow_begin_def Let_def res_write_def
        res_setHeader_def new_response_def example_body_def busy_server_def busy_process_def
        nonempty)
qed

text \<open>
  C3, as the code has it. When the pull call or the execution call is rejected, the
  handler writes one \<open>workflow_error\<close> event with the message of the error (\<open>Unknown
  error\<close> when what was raised is no \<open>Error\<close>), ends the response and schedules the exit
  with code 1. It is the last event, and no event the handler built before it closes a
  workflow. When it is the pull call that fails, nothing is sent to the execution
  service and no event of the execution step is written.
\<close>

theorem fatal_error_ends_workflow:
  assumes "truthy (prompt b)" and "truthy (repoUrl b)"
    and "failure (http (pullUrl cfg) (pull_payload b)) = Some error \<or>
         failure (http (pullUrl cfg) (pull_payload b)) = None \<and>
         failure (http (executeUrl cfg)
           (execute_payload b (pulled_path toString JSON_parse http cfg b))) = Some error"
  shows "let (g', r) = post_workflow toString JSON_parse http cfg workflowId b g in
       written r \<noteq> [] \<and>
       last (written r) = Workflow_error workflowId (error_text error) \<and>
       list_all (\<lambda>ev. \<not> terminal ev) (butlast (written r)) \<and>
       ended r \<and> exits g' = exits g @ [1] \<and>
       (failure (http (pullUrl cfg) (pull_payload b)) = Some error \<longrightarrow>
          posted g' = posted g @ [(pullUrl cfg, pull_payload b)] \<and>
          list_all (\<lambda>ev. \<not> execution_event ev) (written r))"
proof -
  from assms(3) show ?thesis
  proof
    assume "failure (http (pullUrl cfg) (pull_payload b)) = Some error"
    with assms(1,2) show ?thesis
      by (simp add: post_workflow_def workflow_begin_def Let_def pull_step_eq workflow_catch_def
          res_write_def res_end_def res_setHeader_def new_response_def
          list_all_not_terminal_Pull_progress list_all_not_execution_Pull_progress)
  next
    assume exec: "failure (http (pullUrl cfg) (pull_payload b)) = None \<and>
      failure (http (executeUrl cfg)
        (execute_payload b (pulled_path toString JSON_parse http cfg b))) = Some error"
    have path: "fold (next_path JSON_parse)
        (accepted_bodies JSON_parse (complete_frames
          (concat (map toString (chunks (http (pullUrl cfg) (pull_payload b)))))))
        (JStr []) = pulled_path toString JSON_parse http cfg b"
      by (simp add: pulled_path_def pull_step_eq)
    from assms(1,2) exec show ?thesis
      by (simp add: post_workflow_def workflow_begin_def Let_def pull_step_eq path
          execute_step_def streamSSE_text fold_execute_onData workflow_catch_def
          res_write_def res_end_def res_setHeader_def new_response_def
          list_all_not_terminal_Pull_progress list_all_not_terminal_Raw butlast_append)
  qed
qed

theorem fatal_error_ends_workflow_witness:
  "truthy (prompt example_body) \<and> truthy (repoUrl example_body) \<and>
   failure (answering failing_stream (pullUrl example_config) (pull_payload example_body)) =
     Some (Error (lit ''socket hang up'')) \<and>
   last (written (snd (post_workflow utf8_toString parse_numbers (answering failing_stream)
       example_config (lit ''w1'') example_body idle_process))) =
     Workflow_error (lit ''w1'') (lit ''socket hang up'') \<and>
   ended (snd (post_workflow utf8_toString parse_numbers (answering failing_stream)
       example_config (lit ''w1'') example_body idle_process)) \<and>
   exits (fst (post_workflow utf8_toString parse_numbers (answering failing_stream)
       example_config (lit ''w1'') example_body idle_process)) = [1] \<and>
   posted (fst (post_workflow utf8_toString parse_numbers (answering failing_stream)
       example_config (lit ''w1'') example_body idle_process)) =
     [(pullUrl example_config, pull_payload example_body)] \<and>
   failure (services example_config broken_stream failing_stream (pullUrl example_config)
       (pull_payload example_body)) = None \<and>
   last (written (snd (post_workflow utf8_toString parse_numbers
       (services example_config broken_stream failing_stream)
       example_config (lit ''w1'') example_body idle_process))) =
     Workflow_error (lit ''w1'') (lit ''socket hang up'')"
proof -
  let ?e = "Error (lit ''socket hang up'')"
  let ?one = "answering failing_stream"
  let ?two = "services example_config broken_stream failing_stream"
  have a: "failure (?one (pullUrl example_config) (pull_payload example_body)) = Some ?e"
    by (simp add: answering_def failing_stream_def)
  have b: "failure (?two (pullUrl example_config) (pull_payload example_body)) = None"
    by (simp add: services_def broken_stream_def)
  have c: "failure (?two (executeUrl example_config) d) = Some ?e" for d
    by (simp add: services_def example_urls_differ failing_stream_def)
  have first: "failure (?one (pullUrl example_config) (pull_payload example_body)) = Some ?e \<or>
      failure (?one (pullUrl example_config) (pull_payload example_body)) = None \<and>
      failure (?one (executeUrl example_config)
        (execute_payload example_body
          (pulled_path utf8_toString parse_numbers ?one example_config example_body))) = Some ?e"
    using a by blast
  have second: "failure (?two (pullUrl example_config) (pull_payload example_body)) = Some ?e \<or>
      failure (?two (pullUrl example_config) (pull_payload example_body)) = None \<and>
      failure (?two (executeUrl example_config)
        (execute_payload example_body
          (pulled_path utf8_toString parse_numbers ?two example_config example_body))) = Some ?e"
    using b c by blast
  note one = fatal_error_ends_workflow [where http = ?one and toString = utf8_toString
      and JSON_parse = parse_numbers and workflowId = "lit ''w1''" and g = idle_process,
      OF example_body_truthy first]
  note two = fatal_error_ends_workflow [where http = ?two and toString = utf8_toString
      and JSON_parse = parse_numbers and workflowId = "lit ''w1''" and g = idle_process,
      OF example_body_truthy second]
  from one two a b example_body_truthy show ?thesis
    by (simp add: Let_def split_beta error_text_def idle_process_def)
qed

text \<open>
  C3 as stated names the closing event \<open>completed\<close>. When the pull call fails after one
  frame, the events written have these types: the one that carries the error is a
  \<open>workflow_error\<close> event, and there is no \<open>completed\<close> event.
\<close>

theorem fatal_error_event_types:
  "map event_type
     (written (snd (post_workflow utf8_toString parse_numbers (answering failing_stream)
        example_config (lit ''w1'') example_body idle_process))) =
   [Some ''workflow_started'', Some ''message'', Some ''pull_progress'', Some ''workflow_error'']"
proof -
  have pull: "answering failing_stream (pullUrl example_config) (pull_payload example_body) =
      failing_stream"
    by (simp add: answering_def)
  have bodies: "List.map_filter parse_numbers (accepted_bodies parse_numbers [lit ''data: 1'']) =
      [JNum 1]"
    by (simp add: accepted_bodies_def data_bodies_def parse_numbers_def map_filter_simps lit_def)
  have failed: "failure failing_stream = Some (Error (lit ''socket hang up''))"
    by (simp add: failing_stream_def)
  show ?thesis
    using example_body_truthy
    by (simp add: post_workflow_def workflow_begin_def Let_def pull_step_eq pull
        failing_stream_frames bodies failed workflow_catch_def res_write_def res_end_def
        res_setHeader_def new_response_def)
qed

end
